theory Spec2Isabelle
  imports Main
begin

section \<open>Data model\<close>

text \<open>
  The component \<open>TheaterTicketSystem\<close> keeps seats, booking records and the form in React
  state. The interfaces of the source become records. \<open>Seat.id\<close> is named \<open>id_seat\<close>
  (\<open>id\<close> is the identity function of HOL) and \<open>BookedUser._id\<close> is named \<open>id_rec\<close>.
  Numbers that the program uses as identifiers and positions are integers.
\<close>

datatype seat_status = available | booked

record Seat =
  id_seat :: int
  row :: string
  number :: int
  status :: seat_status
  selectedBy :: "string option"

record FormData =
  name :: string
  email :: string
  phone :: string
  payment :: string

text \<open>
  \<open>seatId\<close> is declared a number; the reconciliation tests it against \<open>undefined\<close>, so the
  field is optional here and \<open>None\<close> stands for \<open>undefined\<close>.
\<close>

record BookedUser =
  id_rec :: string
  name :: string
  email :: string
  phone :: string
  payment :: string
  seatBooked :: bool
  seatId :: "int option"
  createdAt :: string

section \<open>Seat Model Builder\<close>

text \<open>
  The object pushed by one iteration of the loop of \<open>generateAllSeats\<close>.
  \<open>String.fromCharCode (65 + Math.floor (i / 10))\<close> is a one-character string.
\<close>

definition new_seat :: "nat \<Rightarrow> Seat" where
  "new_seat i =
     \<lparr> id_seat = int i,
       row = [char_of (65 + i div 10)],
       number = int (i mod 10) + 1,
       status = available,
       selectedBy = None \<rparr>"

text \<open>The \<open>for\<close> loop: \<open>i\<close> runs from its start value while \<open>i < 80\<close>, pushing one seat each time.\<close>

function generate_loop :: "nat \<Rightarrow> Seat list \<Rightarrow> Seat list" where
  "generate_loop i allSeats =
     (if i < 80 then generate_loop (i + 1) (allSeats @ [new_seat i]) else allSeats)"
  by pat_completeness auto
termination
  by (relation "measure (\<lambda>(i, allSeats). 80 - i)") auto

definition generateAllSeats :: "Seat list" where
  "generateAllSeats = generate_loop 0 []"

section \<open>Reconciliation\<close>

text \<open>\<open>Array.prototype.findIndex\<close>: the first position that satisfies the test, \<open>None\<close> for \<open>-1\<close>.\<close>

fun findIndex :: "('a \<Rightarrow> bool) \<Rightarrow> 'a list \<Rightarrow> nat option" where
  "findIndex P [] = None"
| "findIndex P (x # xs) = (if P x then Some 0 else map_option Suc (findIndex P xs))"

text \<open>The body of the \<open>forEach\<close> callback of \<open>markBookedSeats\<close>, on the working copy.\<close>

definition mark_user :: "Seat list \<Rightarrow> BookedUser \<Rightarrow> Seat list" where
  "mark_user updatedSeats user =
     (if seatBooked user \<and> seatId user \<noteq> None then
        (case findIndex (\<lambda>seat. Some (id_seat seat) = seatId user) updatedSeats of
           None \<Rightarrow> updatedSeats
         | Some seatIndex \<Rightarrow>
             updatedSeats[seatIndex :=
               (updatedSeats ! seatIndex)\<lparr> status := booked,
                                           selectedBy := Some (BookedUser.name user) \<rparr>])
      else updatedSeats)"

definition markBookedSeats :: "Seat list \<Rightarrow> BookedUser list \<Rightarrow> Seat list" where
  "markBookedSeats allSeats users = foldl mark_user allSeats users"

text \<open>
  Two notions used to state what the reconciliation computes. A position is the first with
  its id when no earlier seat of the sequence has the same id (the position \<open>findIndex\<close>
  returns for that id). \<open>last_confirmed users k\<close> is the name of the last record of the
  collection that is confirmed and refers to seat id \<open>k\<close>.
\<close>

definition first_with_id :: "Seat list \<Rightarrow> nat \<Rightarrow> bool" where
  "first_with_id seats i \<longleftrightarrow> id_seat (seats ! i) \<notin> set (take i (map id_seat seats))"

definition last_confirmed :: "BookedUser list \<Rightarrow> int \<Rightarrow> string option" where
  "last_confirmed users k =
     (let confirmed = filter (\<lambda>u. seatBooked u \<and> seatId u = Some k) users
      in if confirmed = [] then None else Some (BookedUser.name (last confirmed)))"

subsection \<open>Reconciliation on a store of objects and arrays\<close>

text \<open>
  \<open>markBookedSeats\<close> copies the array (\<open>[...allSeats]\<close>), and writes into the copy a new
  object (\<open>{...updatedSeats[seatIndex], status, selectedBy}\<close>). To state that the caller's
  array and seat objects stay as they were, the same function is written once more over an
  explicit store: objects and arrays live at addresses (positions of the two lists), an
  array holds object addresses, and allocation appends to the store.
\<close>

record store =
  objects :: "Seat list"
  arrays :: "nat list list"

definition mark_user_store :: "nat \<Rightarrow> store \<Rightarrow> BookedUser \<Rightarrow> store" where
  "mark_user_store updatedSeats h user =
     (if seatBooked user \<and> seatId user \<noteq> None then
        (case findIndex (\<lambda>r. Some (id_seat (objects h ! r)) = seatId user)
                (arrays h ! updatedSeats) of
           None \<Rightarrow> h
         | Some seatIndex \<Rightarrow>
             h\<lparr> objects := objects h @
                   [(objects h ! (arrays h ! updatedSeats ! seatIndex))
                      \<lparr> status := booked, selectedBy := Some (BookedUser.name user) \<rparr>],
                arrays := (arrays h)[updatedSeats :=
                   (arrays h ! updatedSeats)[seatIndex := length (objects h)]] \<rparr>)
      else h)"

definition markBookedSeats_store :: "store \<Rightarrow> nat \<Rightarrow> BookedUser list \<Rightarrow> store \<times> nat" where
  "markBookedSeats_store h allSeats users =
     (let updatedSeats = length (arrays h);
          h1 = h\<lparr> arrays := arrays h @ [arrays h ! allSeats] \<rparr>
      in (foldl (mark_user_store updatedSeats) h1 users, updatedSeats))"

text \<open>The seat sequence an array address denotes in a store.\<close>

definition seats_at :: "store \<Rightarrow> nat \<Rightarrow> Seat list" where
  "seats_at h a = map (\<lambda>r. objects h ! r) (arrays h ! a)"

definition valid_array :: "store \<Rightarrow> nat \<Rightarrow> bool" where
  "valid_array h a \<longleftrightarrow> a < length (arrays h) \<and> list_all (\<lambda>r. r < length (objects h)) (arrays h ! a)"

section \<open>Responses of the booking service\<close>

text \<open>
  A value \<open>response.json()\<close> can resolve to. The elements of an array are taken at the
  type the source declares for them (\<open>BookedUser[]\<close>); the shape of the value itself is
  what \<open>fetchData\<close> inspects at run time. An object is the list of its properties.
\<close>

datatype 'u jsval =
    JNull
  | JBool bool
  | JNum int
  | JStr string
  | JArr "'u list"
  | JObj "(string \<times> 'u jsval) list"

text \<open>
  What a \<open>try\<close> block can throw: a rejected promise of \<open>fetch\<close>, \<open>text()\<close> or \<open>json()\<close>
  with its message, the two \<open>new Error (...)\<close> of the source (\<open>HTTP error! status: n\<close> and
  \<open>Failed to confirm booking: text\<close>), and the \<open>TypeError\<close> of reading a property of \<open>null\<close>.
\<close>

datatype exn =
    Rejected string
  | HttpStatusError nat
  | ConfirmBookingError string
  | TypeError

text \<open>
  The \<open>Response\<close> object: \<open>ok\<close>, \<open>status\<close>, and what \<open>text()\<close> and \<open>json()\<close> resolve to or
  reject with. The result of \<open>await fetch (...)\<close> is a response or a rejection.
\<close>

record 'j response =
  ok :: bool
  http_status :: nat
  text_body :: "exn + string"
  json_body :: "exn + 'j"

type_synonym 'j fetched = "exn + 'j response"

text \<open>
  Reading property \<open>p\<close> of a value: a \<open>TypeError\<close> on \<open>null\<close>, the property of an object,
  \<open>undefined\<close> (\<open>None\<close>) otherwise; the properties read by the program (\<open>data\<close>, \<open>users\<close>)
  are not defined on arrays, strings, numbers or booleans.
\<close>

definition get_prop :: "'u jsval \<Rightarrow> string \<Rightarrow> exn + 'u jsval option" where
  "get_prop v p =
     (case v of
        JNull \<Rightarrow> Inl TypeError
      | JObj props \<Rightarrow> Inr (map_of props p)
      | _ \<Rightarrow> Inr None)"

fun truthy :: "'u jsval option \<Rightarrow> bool" where
  "truthy None = False"
| "truthy (Some JNull) = False"
| "truthy (Some (JBool b)) = b"
| "truthy (Some (JNum n)) = (n \<noteq> 0)"
| "truthy (Some (JStr s)) = (s \<noteq> [])"
| "truthy (Some (JArr us)) = True"
| "truthy (Some (JObj props)) = True"

fun isArray :: "'u jsval option \<Rightarrow> bool" where
  "isArray (Some (JArr us)) = True"
| "isArray _ = False"

fun elements :: "'u jsval option \<Rightarrow> 'u list" where
  "elements (Some (JArr us)) = us"
| "elements _ = []"

text \<open>
  The chain \<open>if (Array.isArray (data)) ... else if (data.data && Array.isArray (data.data))
  ... else if (data.users && Array.isArray (data.users)) ... else usersData = []\<close>.
\<close>

definition usersData_of :: "'u jsval \<Rightarrow> exn + 'u list" where
  "usersData_of data =
     (if isArray (Some data) then Inr (elements (Some data))
      else
        (case get_prop data ''data'' of
           Inl e \<Rightarrow> Inl e
         | Inr d \<Rightarrow>
             if truthy d \<and> isArray d then Inr (elements d)
             else
               (case get_prop data ''users'' of
                  Inl e \<Rightarrow> Inl e
                | Inr u \<Rightarrow>
                    if truthy u \<and> isArray u then Inr (elements u)
                    else Inr [])))"

text \<open>
  The values that are none of the three accepted shapes and on which the chain reaches its
  last branch: a boolean, a number, a string, or an object whose \<open>data\<close> and \<open>users\<close>
  properties are not arrays.
\<close>

fun other_shape :: "'u jsval \<Rightarrow> bool" where
  "other_shape JNull = False"
| "other_shape (JArr us) = False"
| "other_shape (JObj props) =
     (\<not> isArray (map_of props ''data'') \<and> \<not> isArray (map_of props ''users''))"
| "other_shape (JBool b) = True"
| "other_shape (JNum n) = True"
| "other_shape (JStr s) = True"

section \<open>Component state\<close>

record app_state =
  seats :: "Seat list"
  selectedSeat :: "Seat option"
  showModal :: bool
  loading :: bool
  refreshing :: bool
  error :: "string option"
  bookedUsers :: "BookedUser list"
  formData :: FormData

definition empty_form :: FormData where
  "empty_form =
     \<lparr> FormData.name = [], FormData.email = [], FormData.phone = [],
       FormData.payment = ''card'' \<rparr>"

text \<open>The state of the first render (the arguments of the \<open>useState\<close> calls).\<close>

definition initial_state :: app_state where
  "initial_state =
     \<lparr> seats = [], selectedSeat = None, showModal = False, loading = True,
       refreshing = False, error = None, bookedUsers = [], formData = empty_form \<rparr>"

text \<open>
  What the handlers do besides setting state: the \<open>alert\<close> calls, by the message they
  show (\<open>Please fill all fields\<close>, \<open>No seat selected\<close>, \<open>Failed to confirm booking:\<close> with the
  message of the exception, \<open>Ticket booked successfully for\<close> with name, row and number),
  and \<open>setTimeout (() => fetchData (), ms)\<close>. Calls of \<open>console\<close> are left out.
\<close>

datatype effect =
    Alert_fill_all_fields
  | Alert_no_seat_selected
  | Alert_failed exn
  | Alert_booked string string int
  | SetTimeout_fetchData nat

section \<open>Data Fetch Controller\<close>

text \<open>
  \<open>fetchData\<close> runs in two parts, before and after \<open>await fetch (...)\<close>. The part after it
  reads nothing of the state it was started in; it only sets state.
\<close>

definition fetchData_begin :: "bool \<Rightarrow> app_state \<Rightarrow> app_state" where
  "fetchData_begin showRefresh st =
     (if showRefresh then st\<lparr> refreshing := True \<rparr> else st\<lparr> loading := True \<rparr>)"

text \<open>The \<open>try\<close> block after the request: the new state, or what it throws.\<close>

definition fetchData_try :: "BookedUser jsval fetched \<Rightarrow> app_state \<Rightarrow> exn + app_state" where
  "fetchData_try res st =
     (case res of
        Inl e \<Rightarrow> Inl e
      | Inr response \<Rightarrow>
          if \<not> ok response then Inl (HttpStatusError (http_status response))
          else
            (case json_body response of
               Inl e \<Rightarrow> Inl e
             | Inr data \<Rightarrow>
                 (case usersData_of data of
                    Inl e \<Rightarrow> Inl e
                  | Inr usersData \<Rightarrow>
                      let bookedUsersData = filter seatBooked usersData;
                          allSeats = generateAllSeats;
                          seatsWithBookings = markBookedSeats allSeats bookedUsersData
                      in Inr (st\<lparr> bookedUsers := bookedUsersData,
                                  seats := seatsWithBookings,
                                  error := None \<rparr>))))"

definition fetchData_catch :: "app_state \<Rightarrow> app_state" where
  "fetchData_catch st =
     st\<lparr> error := Some ''Failed to load seat data. Using demo data instead.'',
         seats := generateAllSeats,
         bookedUsers := [] \<rparr>"

definition fetchData_finally :: "app_state \<Rightarrow> app_state" where
  "fetchData_finally st = st\<lparr> loading := False, refreshing := False \<rparr>"

definition fetchData_complete :: "BookedUser jsval fetched \<Rightarrow> app_state \<Rightarrow> app_state" where
  "fetchData_complete res st =
     fetchData_finally
       (case fetchData_try res st of
          Inr st' \<Rightarrow> st'
        | Inl e \<Rightarrow> fetchData_catch st)"

definition fetchData :: "bool \<Rightarrow> BookedUser jsval fetched \<Rightarrow> app_state \<Rightarrow> app_state" where
  "fetchData showRefresh res st = fetchData_complete res (fetchData_begin showRefresh st)"

section \<open>Booking Submission Controller\<close>

text \<open>
  The parsed body of the confirmation as the handler reads it: \<open>null\<close>, where reading
  \<open>data._id\<close> throws, or a value with its \<open>_id\<close> property (\<open>None\<close> when it has none), which
  the handler stores in a field declared a string.
\<close>

datatype confirm_data = Data_null | Data "string option"

text \<open>The two readings of the clock: \<open>Date.now ().toString ()\<close> and \<open>new Date ().toISOString ()\<close>.\<close>

record clock =
  now_string :: string
  now_iso :: string

text \<open>\<open>data._id || Date.now ().toString ()\<close>: the empty string is falsy.\<close>

definition id_or_now :: "confirm_data \<Rightarrow> clock \<Rightarrow> exn + string" where
  "id_or_now data clk =
     (case data of
        Data_null \<Rightarrow> Inl TypeError
      | Data None \<Rightarrow> Inr (now_string clk)
      | Data (Some i) \<Rightarrow> Inr (if i \<noteq> [] then i else now_string clk))"

text \<open>
  The handler reads \<open>formData\<close>, \<open>selectedSeat\<close> and \<open>seats\<close> of the render it was created in
  (here \<open>form\<close>, \<open>sel\<close>, \<open>seats0\<close>), and it sets state after \<open>await\<close>, on the state of that
  later moment. The \<open>try\<close> block returns the state reached, the effects, and the exception
  if one was thrown; \<open>setSeats\<close> comes before \<open>data._id\<close> is read.
\<close>

definition confirm_try ::
  "FormData \<Rightarrow> Seat \<Rightarrow> Seat list \<Rightarrow> clock \<Rightarrow> confirm_data fetched \<Rightarrow> app_state \<Rightarrow>
   app_state \<times> effect list \<times> exn option" where
  "confirm_try form sel seats0 clk res st =
     (case res of
        Inl e \<Rightarrow> (st, [], Some e)
      | Inr response \<Rightarrow>
          if \<not> ok response then
            (case text_body response of
               Inl e \<Rightarrow> (st, [], Some e)
             | Inr errorText \<Rightarrow> (st, [], Some (ConfirmBookingError errorText)))
          else
            (case json_body response of
               Inl e \<Rightarrow> (st, [], Some e)
             | Inr data \<Rightarrow>
                 let updatedSeats =
                       map (\<lambda>s. if id_seat s = id_seat sel
                                 then s\<lparr> status := booked,
                                        selectedBy := Some (FormData.name form) \<rparr>
                                 else s) seats0;
                     st1 = st\<lparr> seats := updatedSeats \<rparr>
                 in
                   (case id_or_now data clk of
                      Inl e \<Rightarrow> (st1, [], Some e)
                    | Inr i \<Rightarrow>
                        let newBookedUser =
                              \<lparr> id_rec = i,
                                name = FormData.name form,
                                email = FormData.email form,
                                phone = FormData.phone form,
                                payment = FormData.payment form,
                                seatBooked = True,
                                seatId = Some (id_seat sel),
                                createdAt = now_iso clk \<rparr>
                        in
                          (st1\<lparr> bookedUsers := bookedUsers st1 @ [newBookedUser],
                                showModal := False,
                                formData := empty_form,
                                selectedSeat := None \<rparr>,
                           [Alert_booked (FormData.name form) (row sel) (number sel),
                            SetTimeout_fetchData 500],
                           None))))"

definition handleConfirmBooking_begin :: "app_state \<Rightarrow> app_state" where
  "handleConfirmBooking_begin st = st\<lparr> loading := True \<rparr>"

definition handleConfirmBooking_complete ::
  "FormData \<Rightarrow> Seat \<Rightarrow> Seat list \<Rightarrow> clock \<Rightarrow> confirm_data fetched \<Rightarrow> app_state \<Rightarrow>
   effect list \<times> app_state" where
  "handleConfirmBooking_complete form sel seats0 clk res st =
     (case confirm_try form sel seats0 clk res st of
        (st', effects, thrown) \<Rightarrow>
          (effects @ (case thrown of None \<Rightarrow> [] | Some e \<Rightarrow> [Alert_failed e]),
           st'\<lparr> loading := False \<rparr>))"

text \<open>
  The whole handler when nothing else runs between its two parts: the checks of the form
  and of the selection, then the request and its outcome.
\<close>

definition handleConfirmBooking ::
  "clock \<Rightarrow> confirm_data fetched \<Rightarrow> app_state \<Rightarrow> effect list \<times> app_state" where
  "handleConfirmBooking clk res st =
     (if FormData.name (formData st) = [] \<or> FormData.email (formData st) = []
         \<or> FormData.phone (formData st) = []
      then ([Alert_fill_all_fields], st)
      else
        (case selectedSeat st of
           None \<Rightarrow> ([Alert_no_seat_selected], st)
         | Some sel \<Rightarrow>
             handleConfirmBooking_complete (formData st) sel (seats st) clk res
               (handleConfirmBooking_begin st)))"

section \<open>Example inputs\<close>

text \<open>Seats A6 and A7 of the layout, and four booking records.\<close>

definition seat_A6 :: Seat where
  "seat_A6 = \<lparr> id_seat = 5, row = ''A'', number = 6, status = available, selectedBy = None \<rparr>"

definition seat_A7 :: Seat where
  "seat_A7 = \<lparr> id_seat = 6, row = ''A'', number = 7, status = available, selectedBy = None \<rparr>"

definition rec_alice :: BookedUser where
  "rec_alice =
     \<lparr> id_rec = ''b1'', name = ''Alice'', email = ''a@x.com'', phone = ''555'',
       payment = ''card'', seatBooked = True, seatId = Some 5,
       createdAt = ''2024-01-01T10:00:00.000Z'' \<rparr>"

definition rec_bob :: BookedUser where
  "rec_bob =
     \<lparr> id_rec = ''b2'', name = ''Bob'', email = ''b@x.com'', phone = ''556'',
       payment = ''cash'', seatBooked = True, seatId = Some 5,
       createdAt = ''2024-01-01T11:00:00.000Z'' \<rparr>"

definition rec_carol :: BookedUser where
  "rec_carol =
     \<lparr> id_rec = ''b3'', name = ''Carol'', email = ''c@x.com'', phone = ''557'',
       payment = ''card'', seatBooked = False, seatId = Some 6,
       createdAt = ''2024-01-01T12:00:00.000Z'' \<rparr>"

definition rec_dave :: BookedUser where
  "rec_dave =
     \<lparr> id_rec = ''b4'', name = ''Dave'', email = ''d@x.com'', phone = ''558'',
       payment = ''card'', seatBooked = True, seatId = Some 99,
       createdAt = ''2024-01-01T13:00:00.000Z'' \<rparr>"

text \<open>A store with the two seats at addresses 0 and 1 and the array of both at address 0.\<close>

definition store_two_seats :: store where
  "store_two_seats = \<lparr> objects = [seat_A6, seat_A7], arrays = [[0, 1]] \<rparr>"

text \<open>
  The state while the modal is open on seat A6 with the form filled in, the readings of the
  clock, and responses of the service.
\<close>

definition form_alice :: FormData where
  "form_alice =
     \<lparr> FormData.name = ''Alice'', FormData.email = ''a@x.com'', FormData.phone = ''555'',
       FormData.payment = ''card'' \<rparr>"

definition state_selecting :: app_state where
  "state_selecting =
     \<lparr> seats = [seat_A6, seat_A7], selectedSeat = Some seat_A6, showModal = True,
       loading = False, refreshing = False, error = None, bookedUsers = [],
       formData = form_alice \<rparr>"

definition clock_noon :: clock where
  "clock_noon = \<lparr> now_string = ''1704103200000'', now_iso = ''2024-01-01T10:00:00.000Z'' \<rparr>"

definition response_confirmed :: "confirm_data response" where
  "response_confirmed =
     \<lparr> ok = True, http_status = 200, text_body = Inr ''created'',
       json_body = Inr (Data (Some ''b1'')) \<rparr>"

definition response_conflict :: "confirm_data response" where
  "response_conflict =
     \<lparr> ok = False, http_status = 409, text_body = Inr ''Seat already booked'',
       json_body = Inl (Rejected ''Unexpected token S in JSON'') \<rparr>"

definition response_of_json :: "BookedUser jsval \<Rightarrow> BookedUser jsval response" where
  "response_of_json data =
     \<lparr> ok = True, http_status = 200, text_body = Inr [], json_body = Inr data \<rparr>"

definition response_server_error :: "BookedUser jsval response" where
  "response_server_error =
     \<lparr> ok = False, http_status = 500, text_body = Inr ''Internal Server Error'',
       json_body = Inl (Rejected ''Unexpected token I in JSON'') \<rparr>"

definition response_not_json :: "BookedUser jsval response" where
  "response_not_json =
     \<lparr> ok = True, http_status = 200, text_body = Inr ''<html>'',
       json_body = Inl (Rejected ''Unexpected token < in JSON'') \<rparr>"

section \<open>Properties of the Seat Model Builder\<close>

lemma generate_loop_map:
  "generate_loop i acc = acc @ map new_seat [i..<80]"
proof (induction i acc rule: generate_loop.induct)
  case (1 i allSeats)
  show ?case
  proof (cases "i < 80")
    case True
    then have "generate_loop i allSeats = (allSeats @ [new_seat i]) @ map new_seat [i + 1..<80]"
      using "1" by simp
    also have "\<dots> = allSeats @ map new_seat [i..<80]"
      using True by (simp add: upt_conv_Cons)
    finally show ?thesis .
  next
    case False
    then show ?thesis by simp
  qed
qed

lemma generateAllSeats_map: "generateAllSeats = map new_seat [0..<80]"
  unfolding generateAllSeats_def generate_loop_map [of 0 "[]"] by (rule append_Nil)

lemma letters:
  "char_of (65::nat) = CHR ''A''" "char_of (66::nat) = CHR ''B''" "char_of (67::nat) = CHR ''C''"
  "char_of (68::nat) = CHR ''D''" "char_of (69::nat) = CHR ''E''" "char_of (70::nat) = CHR ''F''"
  "char_of (71::nat) = CHR ''G''" "char_of (72::nat) = CHR ''H''"
  by code_simp+

lemma row_letter: "k < 8 \<Longrightarrow> [char_of (65 + k)] = [''ABCDEFGH'' ! k]"
proof -
  assume "k < 8"
  then consider "k = 0" | "k = 1" | "k = 2" | "k = 3" | "k = 4" | "k = 5" | "k = 6" | "k = 7"
    by linarith
  then show ?thesis
    by cases (simp_all add: letters)
qed

lemma generateAllSeats_nth: "i < 80 \<Longrightarrow> generateAllSeats ! i = new_seat i"
  by (simp add: generateAllSeats_map del: upt_rec_numeral)

lemma length_generateAllSeats: "length generateAllSeats = 80"
  by (simp add: generateAllSeats_map del: upt_rec_numeral)

lemma ids_new_seats: "map id_seat (map new_seat ns) = map int ns"
  by (simp add: new_seat_def)

lemma new_seat_roundtrip:
  "i < 80 \<Longrightarrow> id_seat (new_seat i) = (of_char (hd (row (new_seat i))) - 65) * 10 + (number (new_seat i) - 1)"
proof -
  assume i: "i < 80"
  have "(of_char (char_of (65 + i div 10)) :: int) = int (of_char (char_of (65 + i div 10)))"
    by (simp only: of_nat_of_char)
  also have "\<dots> = int ((65 + i div 10) mod 256)"
    by (simp only: of_char_of)
  also have "\<dots> = 65 + int (i div 10)"
    using i by simp
  finally have "(of_char (char_of (65 + i div 10)) :: int) = 65 + int (i div 10)" .
  moreover have "int i = int (i div 10) * 10 + int (i mod 10)"
    by (metis div_mult_mod_eq of_nat_add of_nat_mult of_nat_numeral)
  ultimately show ?thesis
    by (simp add: new_seat_def)
qed

text \<open>
  Claim C8. The Seat Model Builder produces, in order, exactly 80 seats with the ids
  0 to 79, each one once; the seat at position \<open>i\<close> is available, has no occupant, its
  row is the letter number \<open>i div 10\<close> counted from A, and its number is \<open>i mod 10 + 1\<close>;
  the address of every seat gives back its id: id = rowIndex * 10 + (number - 1), where
  rowIndex is the distance of the row letter from A.
\<close>

theorem generateAllSeats_layout:
  "length generateAllSeats = 80
   \<and> map id_seat generateAllSeats = map int [0..<80]
   \<and> distinct (map id_seat generateAllSeats)
   \<and> (\<forall>i<80. generateAllSeats ! i =
         \<lparr> id_seat = int i, row = [''ABCDEFGH'' ! (i div 10)], number = int (i mod 10) + 1,
           status = available, selectedBy = None \<rparr>)
   \<and> (\<forall>s \<in> set generateAllSeats.
         id_seat s = (of_char (hd (row s)) - 65) * 10 + (number s - 1))"
proof (intro conjI allI impI ballI)
  show "length generateAllSeats = 80" by (rule length_generateAllSeats)
  show ids: "map id_seat generateAllSeats = map int [0..<80]"
    unfolding generateAllSeats_map by (rule ids_new_seats)
  show "distinct (map id_seat generateAllSeats)"
    unfolding ids by (simp add: distinct_map del: upt_rec_numeral)
next
  fix i :: nat
  assume i: "i < 80"
  then have "i div 10 < 8" by simp
  then have "[char_of (65 + i div 10)] = [''ABCDEFGH'' ! (i div 10)]" by (rule row_letter)
  then show "generateAllSeats ! i =
         \<lparr> id_seat = int i, row = [''ABCDEFGH'' ! (i div 10)], number = int (i mod 10) + 1,
           status = available, selectedBy = None \<rparr>"
    using i by (simp add: generateAllSeats_nth new_seat_def)
next
  fix s
  assume "s \<in> set generateAllSeats"
  then obtain i where "i < 80" "s = new_seat i"
    by (auto simp: generateAllSeats_map simp del: upt_rec_numeral)
  then show "id_seat s = (of_char (hd (row s)) - 65) * 10 + (number s - 1)"
    by (simp add: new_seat_roundtrip)
qed

theorem generateAllSeats_layout_witness:
  "generateAllSeats ! 37 =
     \<lparr> id_seat = 37, row = ''D'', number = 8, status = available, selectedBy = None \<rparr>
   \<and> generateAllSeats ! 37 \<in> set generateAllSeats
   \<and> id_seat (generateAllSeats ! 37)
       = (of_char (hd (row (generateAllSeats ! 37))) - 65) * 10 + (number (generateAllSeats ! 37) - 1)"
proof -
  have len: "(37::nat) < length generateAllSeats"
    using generateAllSeats_layout by simp
  have mem: "generateAllSeats ! 37 \<in> set generateAllSeats"
    using len by (rule nth_mem)
  have "(37::nat) < 80" by simp
  with generateAllSeats_layout
  have "generateAllSeats ! 37 =
         \<lparr> id_seat = int 37, row = [''ABCDEFGH'' ! (37 div 10)], number = int (37 mod 10) + 1,
           status = available, selectedBy = None \<rparr>"
    by blast
  then have a: "generateAllSeats ! 37 =
     \<lparr> id_seat = 37, row = ''D'', number = 8, status = available, selectedBy = None \<rparr>"
    by simp
  from generateAllSeats_layout mem
  have b: "id_seat (generateAllSeats ! 37)
       = (of_char (hd (row (generateAllSeats ! 37))) - 65) * 10 + (number (generateAllSeats ! 37) - 1)"
    by blast
  from a mem b show ?thesis by blast
qed

section \<open>Properties of the reconciliation\<close>

lemma findIndex_None_iff: "findIndex P xs = None \<longleftrightarrow> (\<forall>x\<in>set xs. \<not> P x)"
  by (induction xs) auto

lemma findIndex_Some_iff:
  "findIndex P xs = Some i \<longleftrightarrow> i < length xs \<and> P (xs ! i) \<and> (\<forall>j<i. \<not> P (xs ! j))"
proof (induction xs arbitrary: i)
  case Nil
  then show ?case by simp
next
  case (Cons x xs)
  show ?case
  proof (cases "P x")
    case True
    then show ?thesis by (cases i) auto
  next
    case False
    show ?thesis
    proof (cases i)
      case 0
      with False show ?thesis by simp
    next
      case (Suc k)
      have "(\<forall>j<Suc k. \<not> P ((x # xs) ! j)) \<longleftrightarrow> (\<forall>j<k. \<not> P (xs ! j))"
        using False by (auto simp: less_Suc_eq_0_disj)
      with False Suc Cons.IH [of k] show ?thesis by auto
    qed
  qed
qed

lemma first_with_id_iff:
  "i < length allSeats \<Longrightarrow>
   first_with_id allSeats i \<longleftrightarrow> (\<forall>j<i. id_seat (allSeats ! j) \<noteq> id_seat (allSeats ! i))"
  by (auto simp: first_with_id_def in_set_conv_nth) 

lemma findIndex_first:
  "i < length allSeats \<Longrightarrow>
   findIndex (\<lambda>seat. id_seat seat = k) allSeats = Some i \<longleftrightarrow>
   id_seat (allSeats ! i) = k \<and> first_with_id allSeats i"
  by (auto simp: findIndex_Some_iff first_with_id_iff)

lemma length_mark_user: "length (mark_user allSeats u) = length allSeats"
  by (simp add: mark_user_def split: option.splits)

lemma mark_user_nth:
  assumes "i < length allSeats"
  shows "mark_user allSeats u ! i =
     (if seatBooked u \<and> seatId u = Some (id_seat (allSeats ! i)) \<and> first_with_id allSeats i
      then (allSeats ! i)\<lparr> status := booked, selectedBy := Some (BookedUser.name u) \<rparr>
      else allSeats ! i)"
proof (cases "seatBooked u \<and> seatId u \<noteq> None")
  case False
  then show ?thesis by (auto simp: mark_user_def)
next
  case True
  then obtain k where k: "seatId u = Some k" by auto
  show ?thesis
  proof (cases "findIndex (\<lambda>seat. id_seat seat = k) allSeats")
    case None
    then have "id_seat (allSeats ! i) \<noteq> k"
      using assms by (auto simp: findIndex_None_iff)
    with None True k show ?thesis by (simp add: mark_user_def)
  next
    case (Some j)
    then have j: "j < length allSeats" by (simp add: findIndex_Some_iff)
    have eq: "mark_user allSeats u =
        allSeats[j := (allSeats ! j)\<lparr> status := booked, selectedBy := Some (BookedUser.name u) \<rparr>]"
      using Some True k by (simp add: mark_user_def)
    show ?thesis
    proof (cases "i = j")
      case True
      with Some assms have "id_seat (allSeats ! i) = k \<and> first_with_id allSeats i"
        by (simp add: findIndex_first)
      with eq \<open>i = j\<close> assms k \<open>seatBooked u \<and> seatId u \<noteq> None\<close> show ?thesis by simp
    next
      case False
      have "\<not> (id_seat (allSeats ! i) = k \<and> first_with_id allSeats i)"
        using False Some findIndex_first [OF assms, of k] by auto
      with eq False k show ?thesis by auto
    qed
  qed
qed

lemma ids_mark_user: "map id_seat (mark_user allSeats u) = map id_seat allSeats"
  by (rule nth_equalityI) (simp_all add: length_mark_user mark_user_nth)

lemma markBookedSeats_snoc:
  "markBookedSeats allSeats (users @ [u]) = mark_user (markBookedSeats allSeats users) u"
  by (simp add: markBookedSeats_def)

lemma length_markBookedSeats: "length (markBookedSeats allSeats users) = length allSeats"
  by (induction users rule: rev_induct) (simp_all add: markBookedSeats_def length_mark_user)

lemma ids_markBookedSeats: "map id_seat (markBookedSeats allSeats users) = map id_seat allSeats"
  by (induction users rule: rev_induct) (simp_all add: markBookedSeats_def ids_mark_user)

lemma first_with_id_cong:
  "map id_seat xs = map id_seat ys \<Longrightarrow> i < length ys \<Longrightarrow> first_with_id xs i = first_with_id ys i"
  by (metis first_with_id_def length_map nth_map)

lemma last_confirmed_snoc:
  "last_confirmed (users @ [u]) k =
     (if seatBooked u \<and> seatId u = Some k then Some (BookedUser.name u) else last_confirmed users k)"
  by (simp add: last_confirmed_def)

lemma markBookedSeats_nth:
  "i < length allSeats \<Longrightarrow>
   markBookedSeats allSeats users ! i =
     (if first_with_id allSeats i then
        (case last_confirmed users (id_seat (allSeats ! i)) of
           None \<Rightarrow> allSeats ! i
         | Some n \<Rightarrow> (allSeats ! i)\<lparr> status := booked, selectedBy := Some n \<rparr>)
      else allSeats ! i)"
proof (induction users rule: rev_induct)
  case Nil
  then show ?case by (simp add: markBookedSeats_def last_confirmed_def)
next
  case (snoc u users)
  let ?S = "markBookedSeats allSeats users"
  have len: "i < length ?S" using snoc.prems by (simp add: length_markBookedSeats)
  have idS: "id_seat (?S ! i) = id_seat (allSeats ! i)"
    using ids_markBookedSeats [of allSeats users] snoc.prems by (metis length_map nth_map len)
  have fst: "first_with_id ?S i = first_with_id allSeats i"
    using first_with_id_cong [OF ids_markBookedSeats snoc.prems] .
  show ?case
    unfolding markBookedSeats_snoc mark_user_nth [OF len] idS fst last_confirmed_snoc
    using snoc.IH [OF snoc.prems]
    by (auto split: option.splits)
qed

lemma rows_mark_user: "map row (mark_user allSeats u) = map row allSeats"
  by (rule nth_equalityI) (simp_all add: length_mark_user mark_user_nth)

lemma numbers_mark_user: "map number (mark_user allSeats u) = map number allSeats"
  by (rule nth_equalityI) (simp_all add: length_mark_user mark_user_nth)

lemma rows_markBookedSeats: "map row (markBookedSeats allSeats users) = map row allSeats"
  by (induction users rule: rev_induct) (simp_all add: markBookedSeats_def rows_mark_user)

lemma numbers_markBookedSeats: "map number (markBookedSeats allSeats users) = map number allSeats"
  by (induction users rule: rev_induct) (simp_all add: markBookedSeats_def numbers_mark_user)

lemma last_confirmed_SomeD:
  "last_confirmed users k = Some n \<Longrightarrow>
   \<exists>u\<in>set users. seatBooked u \<and> seatId u = Some k \<and> BookedUser.name u = n"
proof -
  assume a: "last_confirmed users k = Some n"
  let ?c = "filter (\<lambda>u. seatBooked u \<and> seatId u = Some k) users"
  from a have ne: "?c \<noteq> []" and n: "BookedUser.name (last ?c) = n"
    by (auto simp: last_confirmed_def Let_def split: if_splits)
  from ne have "last ?c \<in> set ?c" by (rule last_in_set)
  with n show ?thesis by auto
qed

lemma last_confirmed_filter:
  assumes "k \<in> id_seat ` set allSeats"
  shows "last_confirmed (filter (\<lambda>u. seatBooked u \<and> seatId u \<in> Some ` id_seat ` set allSeats) users) k
         = last_confirmed users k"
proof -
  have "filter (\<lambda>u. seatBooked u \<and> seatId u = Some k)
          (filter (\<lambda>u. seatBooked u \<and> seatId u \<in> Some ` id_seat ` set allSeats) users)
        = filter (\<lambda>u. seatBooked u \<and> seatId u = Some k) users"
    unfolding filter_filter using assms by (intro filter_cong) auto
  then show ?thesis by (simp add: last_confirmed_def)
qed

lemma distinct_first_with_id:
  "distinct (map id_seat allSeats) \<Longrightarrow> i < length allSeats \<Longrightarrow> first_with_id allSeats i"
  by (auto simp: first_with_id_iff distinct_conv_nth)

lemma last_confirmed_SomeI:
  assumes "u \<in> set users" and "seatBooked u" and "seatId u = Some k"
  shows "last_confirmed users k =
         Some (BookedUser.name (last (filter (\<lambda>v. seatBooked v \<and> seatId v = Some k) users)))"
proof -
  have "u \<in> set (filter (\<lambda>v. seatBooked v \<and> seatId v = Some k) users)"
    using assms by simp
  then have "filter (\<lambda>v. seatBooked v \<and> seatId v = Some k) users \<noteq> []"
    by (metis empty_iff empty_set)
  then show ?thesis by (simp add: last_confirmed_def)
qed

lemma last_confirmed_NoneI:
  assumes "\<forall>u\<in>set users. \<not> (seatBooked u \<and> seatId u = Some k)"
  shows "last_confirmed users k = None"
proof -
  have "filter (\<lambda>v. seatBooked v \<and> seatId v = Some k) users = []"
    using assms by (simp add: filter_empty_conv)
  then show ?thesis by (simp add: last_confirmed_def)
qed

lemma markBookedSeats_matched:
  assumes "distinct (map id_seat allSeats)" and "i < length allSeats"
    and "u \<in> set users" and "seatBooked u" and "seatId u = Some (id_seat (allSeats ! i))"
  shows "markBookedSeats allSeats users ! i =
         (allSeats ! i)\<lparr> status := booked,
            selectedBy := Some (BookedUser.name (last (filter
              (\<lambda>v. seatBooked v \<and> seatId v = Some (id_seat (allSeats ! i))) users))) \<rparr>"
  using assms(2) distinct_first_with_id [OF assms(1,2)] last_confirmed_SomeI [OF assms(3,4,5)]
  by (simp add: markBookedSeats_nth)

lemma markBookedSeats_unmatched:
  assumes "i < length allSeats"
    and "\<forall>u\<in>set users. \<not> (seatBooked u \<and> seatId u = Some (id_seat (allSeats ! i)))"
  shows "markBookedSeats allSeats users ! i = allSeats ! i"
  using assms(1) last_confirmed_NoneI [OF assms(2)]
  by (simp add: markBookedSeats_nth)

text \<open>
  Claim C1. The reconciliation returns a sequence of the same length. In a seat sequence
  with pairwise distinct ids, as the Seat Model Builder produces, for each record with
  \<open>seatBooked\<close> true whose \<open>seatId\<close> is the id of a seat, that seat becomes booked and its
  occupant is the name of the last record of the collection, in its order, that is
  confirmed and has this \<open>seatId\<close>: records are applied in collection order and the last
  one wins. A seat that no confirmed record refers to is the input seat, and records that
  are not confirmed or whose \<open>seatId\<close> is the id of no seat can be dropped from the
  collection without changing the result. For any seat sequence the result is given
  position by position: the position \<open>findIndex\<close> returns for an id, the first with that
  id, is the one marked.
\<close>

theorem markBookedSeats_first_match:
  "length (markBookedSeats allSeats users) = length allSeats
   \<and> (\<forall>i<length allSeats.
         markBookedSeats allSeats users ! i =
           (if first_with_id allSeats i then
              (case last_confirmed users (id_seat (allSeats ! i)) of
                 None \<Rightarrow> allSeats ! i
               | Some n \<Rightarrow> (allSeats ! i)\<lparr> status := booked, selectedBy := Some n \<rparr>)
            else allSeats ! i))
   \<and> (distinct (map id_seat allSeats) \<longrightarrow> (\<forall>i<length allSeats. first_with_id allSeats i))
   \<and> (distinct (map id_seat allSeats) \<longrightarrow>
        (\<forall>i<length allSeats. \<forall>u\<in>set users.
           seatBooked u \<and> seatId u = Some (id_seat (allSeats ! i)) \<longrightarrow>
             markBookedSeats allSeats users ! i =
               (allSeats ! i)\<lparr> status := booked,
                  selectedBy := Some (BookedUser.name (last (filter
                    (\<lambda>v. seatBooked v \<and> seatId v = Some (id_seat (allSeats ! i))) users))) \<rparr>))
   \<and> (\<forall>i<length allSeats.
         (\<forall>u\<in>set users. \<not> (seatBooked u \<and> seatId u = Some (id_seat (allSeats ! i)))) \<longrightarrow>
           markBookedSeats allSeats users ! i = allSeats ! i)
   \<and> markBookedSeats allSeats users =
       markBookedSeats allSeats
         (filter (\<lambda>u. seatBooked u \<and> seatId u \<in> Some ` id_seat ` set allSeats) users)"
proof (intro conjI)
  show "length (markBookedSeats allSeats users) = length allSeats"
    by (rule length_markBookedSeats)
  show "distinct (map id_seat allSeats) \<longrightarrow>
        (\<forall>i<length allSeats. \<forall>u\<in>set users.
           seatBooked u \<and> seatId u = Some (id_seat (allSeats ! i)) \<longrightarrow>
             markBookedSeats allSeats users ! i =
               (allSeats ! i)\<lparr> status := booked,
                  selectedBy := Some (BookedUser.name (last (filter
                    (\<lambda>v. seatBooked v \<and> seatId v = Some (id_seat (allSeats ! i))) users))) \<rparr>)"
    using markBookedSeats_matched by blast
  show "\<forall>i<length allSeats.
         (\<forall>u\<in>set users. \<not> (seatBooked u \<and> seatId u = Some (id_seat (allSeats ! i)))) \<longrightarrow>
           markBookedSeats allSeats users ! i = allSeats ! i"
    using markBookedSeats_unmatched by blast
  show "\<forall>i<length allSeats.
         markBookedSeats allSeats users ! i =
           (if first_with_id allSeats i then
              (case last_confirmed users (id_seat (allSeats ! i)) of
                 None \<Rightarrow> allSeats ! i
               | Some n \<Rightarrow> (allSeats ! i)\<lparr> status := booked, selectedBy := Some n \<rparr>)
            else allSeats ! i)"
    using markBookedSeats_nth by blast
  show "distinct (map id_seat allSeats) \<longrightarrow> (\<forall>i<length allSeats. first_with_id allSeats i)"
    using distinct_first_with_id by blast
  show "markBookedSeats allSeats users =
       markBookedSeats allSeats
         (filter (\<lambda>u. seatBooked u \<and> seatId u \<in> Some ` id_seat ` set allSeats) users)"
  proof (rule nth_equalityI)
    show "length (markBookedSeats allSeats users) =
          length (markBookedSeats allSeats
            (filter (\<lambda>u. seatBooked u \<and> seatId u \<in> Some ` id_seat ` set allSeats) users))"
      by (simp add: length_markBookedSeats)
  next
    fix i
    assume "i < length (markBookedSeats allSeats users)"
    then have i: "i < length allSeats" by (simp add: length_markBookedSeats)
    then have "id_seat (allSeats ! i) \<in> id_seat ` set allSeats" by simp
    then show "markBookedSeats allSeats users ! i =
          markBookedSeats allSeats
            (filter (\<lambda>u. seatBooked u \<and> seatId u \<in> Some ` id_seat ` set allSeats) users) ! i"
      using i by (simp only: markBookedSeats_nth last_confirmed_filter)
  qed
qed

theorem markBookedSeats_first_match_witness:
  "distinct (map id_seat [seat_A6, seat_A7])
   \<and> (0::nat) < length [seat_A6, seat_A7]
   \<and> rec_alice \<in> set [rec_alice, rec_bob, rec_carol, rec_dave]
   \<and> seatBooked rec_alice
   \<and> seatId rec_alice = Some (id_seat ([seat_A6, seat_A7] ! 0))
   \<and> markBookedSeats [seat_A6, seat_A7] [rec_alice, rec_bob, rec_carol, rec_dave] ! 0
       = seat_A6\<lparr> status := booked, selectedBy := Some ''Bob'' \<rparr>
   \<and> markBookedSeats [seat_A6, seat_A7] [rec_alice, rec_bob, rec_carol, rec_dave] ! 1
       = seat_A7
   \<and> first_with_id [seat_A6, seat_A7] 1
   \<and> markBookedSeats [seat_A6, seat_A6, seat_A7] [rec_alice, rec_bob, rec_carol, rec_dave] ! 0
       = seat_A6\<lparr> status := booked, selectedBy := Some ''Bob'' \<rparr>
   \<and> markBookedSeats [seat_A6, seat_A6, seat_A7] [rec_alice, rec_bob, rec_carol, rec_dave] ! 1
       = seat_A6"
proof -
  let ?D = "[seat_A6, seat_A7]"
  let ?L = "[seat_A6, seat_A6, seat_A7]"
  let ?U = "[rec_alice, rec_bob, rec_carol, rec_dave]"
  note tD = markBookedSeats_first_match [of ?D ?U]
  note tL = markBookedSeats_first_match [of ?L ?U]
  have d: "distinct (map id_seat ?D)"
    by (simp add: seat_A6_def seat_A7_def)
  have l0: "(0::nat) < length ?D" and l1: "(1::nat) < length ?D"
    by simp_all
  have m: "rec_alice \<in> set ?U"
    by simp
  have a: "seatBooked rec_alice \<and> seatId rec_alice = Some (id_seat (?D ! 0))"
    by (simp add: rec_alice_def seat_A6_def)
  note matched = tD [THEN conjunct2, THEN conjunct2, THEN conjunct2, THEN conjunct1,
      THEN mp, OF d, rule_format, OF l0 m a]
  have 0: "markBookedSeats ?D ?U ! 0 = seat_A6\<lparr> status := booked, selectedBy := Some ''Bob'' \<rparr>"
    unfolding matched
    by (simp add: seat_A6_def rec_alice_def rec_bob_def rec_carol_def rec_dave_def)
  have u: "\<forall>u\<in>set ?U. \<not> (seatBooked u \<and> seatId u = Some (id_seat (?D ! 1)))"
    by (simp add: seat_A7_def rec_alice_def rec_bob_def rec_carol_def rec_dave_def)
  note unmatched = tD [THEN conjunct2, THEN conjunct2, THEN conjunct2, THEN conjunct2,
      THEN conjunct1, rule_format, OF l1 u [rule_format]]
  have 1: "markBookedSeats ?D ?U ! 1 = seat_A7"
    using unmatched by simp
  note first = tD [THEN conjunct2, THEN conjunct2, THEN conjunct1, THEN mp, OF d,
      rule_format, OF l1]
  note nth = tL [THEN conjunct2, THEN conjunct1]
  have 2: "markBookedSeats ?L ?U ! 0 = seat_A6\<lparr> status := booked, selectedBy := Some ''Bob'' \<rparr>"
    using nth [rule_format, of 0]
    by (simp add: first_with_id_def last_confirmed_def seat_A6_def
          rec_alice_def rec_bob_def rec_carol_def rec_dave_def)
  have 3: "markBookedSeats ?L ?U ! 1 = seat_A6"
    using nth [rule_format, of 1] by (simp add: first_with_id_def)
  from d l0 m a 0 1 first 2 3 show ?thesis by simp
qed

text \<open>
  Claim C9. Reconciliation is idempotent: reconciling the result once more with the same
  booking collection gives the same seats (statuses, occupant names and all other fields).
\<close>

theorem markBookedSeats_idempotent:
  "markBookedSeats (markBookedSeats allSeats users) users = markBookedSeats allSeats users"
proof (rule nth_equalityI)
  show "length (markBookedSeats (markBookedSeats allSeats users) users)
        = length (markBookedSeats allSeats users)"
    by (simp add: length_markBookedSeats)
next
  fix i
  let ?S = "markBookedSeats allSeats users"
  assume "i < length (markBookedSeats ?S users)"
  then have i: "i < length allSeats" and iS: "i < length ?S"
    by (simp_all add: length_markBookedSeats)
  have idS: "id_seat (?S ! i) = id_seat (allSeats ! i)"
    using ids_markBookedSeats [of allSeats users] i by (metis length_map nth_map iS)
  have fst: "first_with_id ?S i = first_with_id allSeats i"
    using first_with_id_cong [OF ids_markBookedSeats i] .
  show "markBookedSeats ?S users ! i = ?S ! i"
    unfolding markBookedSeats_nth [OF iS] idS fst
    using markBookedSeats_nth [OF i, of users]
    by (auto split: option.splits)
qed


subsection \<open>The reconciliation on the store\<close>

lemma findIndex_map: "findIndex P (map f xs) = findIndex (\<lambda>x. P (f x)) xs"
  by (induction xs) simp_all

lemma findIndex_less: "findIndex P xs = Some i \<Longrightarrow> i < length xs"
  by (simp add: findIndex_Some_iff)

lemma objects_mark_user_store:
  "take (length (objects h)) (objects (mark_user_store w h u)) = objects h"
  by (simp add: mark_user_store_def split: option.splits)

lemma objects_mark_user_store_le:
  "length (objects h) \<le> length (objects (mark_user_store w h u))"
  by (simp add: mark_user_store_def split: option.splits)

lemma arrays_mark_user_store:
  "length (arrays (mark_user_store w h u)) = length (arrays h)"
  "a \<noteq> w \<Longrightarrow> arrays (mark_user_store w h u) ! a = arrays h ! a"
  by (simp_all add: mark_user_store_def split: option.splits)

lemma seats_at_update:
  assumes "list_all (\<lambda>r. r < length os) refs" and "i < length refs"
  shows "map (\<lambda>r. (os @ [x]) ! r) (refs[i := length os]) = (map (\<lambda>r. os ! r) refs)[i := x]"
proof (rule nth_equalityI)
  show "length (map (\<lambda>r. (os @ [x]) ! r) (refs[i := length os]))
        = length ((map (\<lambda>r. os ! r) refs)[i := x])"
    by simp
next
  fix j
  assume "j < length (map (\<lambda>r. (os @ [x]) ! r) (refs[i := length os]))"
  then have j: "j < length refs" by simp
  then have "refs ! j < length os"
    using assms(1) by (simp add: list_all_length)
  then show "map (\<lambda>r. (os @ [x]) ! r) (refs[i := length os]) ! j
        = (map (\<lambda>r. os ! r) refs)[i := x] ! j"
    using j assms(2) by (cases "j = i") (simp_all add: nth_append)
qed

lemma mark_user_store_refines:
  assumes "valid_array h w"
  shows "valid_array (mark_user_store w h u) w
         \<and> seats_at (mark_user_store w h u) w = mark_user (seats_at h w) u"
proof (cases "seatBooked u \<and> seatId u \<noteq> None")
  case False
  with assms show ?thesis by (auto simp: mark_user_store_def mark_user_def)
next
  case True
  let ?refs = "arrays h ! w"
  have w: "w < length (arrays h)" and refs: "list_all (\<lambda>r. r < length (objects h)) ?refs"
    using assms by (simp_all add: valid_array_def)
  have fi: "findIndex (\<lambda>seat. Some (id_seat seat) = seatId u) (seats_at h w)
            = findIndex (\<lambda>r. Some (id_seat (objects h ! r)) = seatId u) ?refs"
    by (simp add: seats_at_def findIndex_map)
  show ?thesis
  proof (cases "findIndex (\<lambda>r. Some (id_seat (objects h ! r)) = seatId u) ?refs")
    case None
    with True fi assms show ?thesis by (simp add: mark_user_store_def mark_user_def)
  next
    case (Some i)
    then have i: "i < length ?refs" by (rule findIndex_less)
    let ?x = "(objects h ! (?refs ! i))\<lparr> status := booked, selectedBy := Some (BookedUser.name u) \<rparr>"
    have h': "mark_user_store w h u =
        h\<lparr> objects := objects h @ [?x],
           arrays := (arrays h)[w := ?refs[i := length (objects h)]] \<rparr>"
      using True Some by (simp add: mark_user_store_def)
    have valid: "valid_array (mark_user_store w h u) w"
      unfolding h' valid_array_def using w refs i
      by (auto simp: list_all_length nth_list_update less_Suc_eq)
    have "seats_at (mark_user_store w h u) w = (seats_at h w)[i := ?x]"
      unfolding h' seats_at_def using w seats_at_update [OF refs i] by simp
    also have "\<dots> = mark_user (seats_at h w) u"
      using True Some fi i by (simp add: mark_user_def seats_at_def)
    finally show ?thesis using valid by simp
  qed
qed

lemma foldl_store_frame:
  "take (length (objects h)) (objects (foldl (mark_user_store w) h users)) = objects h
   \<and> length (objects h) \<le> length (objects (foldl (mark_user_store w) h users))
   \<and> length (arrays (foldl (mark_user_store w) h users)) = length (arrays h)
   \<and> (\<forall>a. a \<noteq> w \<longrightarrow> arrays (foldl (mark_user_store w) h users) ! a = arrays h ! a)"
proof (induction users rule: rev_induct)
  case Nil
  then show ?case by simp
next
  case (snoc u users)
  let ?h = "foldl (mark_user_store w) h users"
  have "take (length (objects h)) (objects (mark_user_store w ?h u))
        = take (length (objects h)) (take (length (objects ?h)) (objects (mark_user_store w ?h u)))"
    using snoc by (simp add: min_absorb1)
  also have "\<dots> = objects h"
    using snoc by (simp only: objects_mark_user_store)
  finally have 1: "take (length (objects h)) (objects (mark_user_store w ?h u)) = objects h" .
  have 2: "length (objects h) \<le> length (objects (mark_user_store w ?h u))"
    using snoc objects_mark_user_store_le [of ?h w u] by linarith
  show ?case
    using 1 2 snoc by (simp add: arrays_mark_user_store)
qed

lemma foldl_store_refines:
  "valid_array h w \<Longrightarrow>
   valid_array (foldl (mark_user_store w) h users) w
   \<and> seats_at (foldl (mark_user_store w) h users) w = markBookedSeats (seats_at h w) users"
proof (induction users rule: rev_induct)
  case Nil
  then show ?case by (simp add: markBookedSeats_def)
next
  case (snoc u users)
  then show ?case
    using mark_user_store_refines [of "foldl (mark_user_store w) h users" w u]
    by (simp add: markBookedSeats_def)
qed

lemma seats_at_prefix:
  assumes "list_all (\<lambda>r. r < length (objects h)) (arrays h ! a)"
    and "take (length (objects h)) (objects h') = objects h"
    and "arrays h' ! a = arrays h ! a"
  shows "seats_at h' a = seats_at h a"
proof -
  have "\<And>r. r < length (objects h) \<Longrightarrow> objects h' ! r = objects h ! r"
    using assms(2) by (metis nth_take)
  then show ?thesis
    using assms(1,3) by (auto simp: seats_at_def list_all_iff)
qed

lemma markBookedSeats_store_frame:
  assumes "markBookedSeats_store h a users = (h', a')"
  shows "a' = length (arrays h)"
    and "take (length (objects h)) (objects h') = objects h"
    and "take (length (arrays h)) (arrays h') = arrays h"
proof -
  let ?h1 = "h\<lparr> arrays := arrays h @ [arrays h ! a] \<rparr>"
  let ?w = "length (arrays h)"
  from assms have h': "h' = foldl (mark_user_store ?w) ?h1 users" and a': "a' = ?w"
    by (auto simp: markBookedSeats_store_def Let_def)
  show "a' = length (arrays h)" by (rule a')
  show "take (length (objects h)) (objects h') = objects h"
    using foldl_store_frame [of ?h1 ?w users] h' by simp
  have len: "length (arrays h') = Suc ?w"
    using foldl_store_frame [of ?h1 ?w users] h' by simp
  have nth: "\<And>b. b < ?w \<Longrightarrow> arrays h' ! b = arrays h ! b"
    using foldl_store_frame [of ?h1 ?w users] h' by (simp add: nth_append)
  show "take (length (arrays h)) (arrays h') = arrays h"
    by (rule nth_equalityI) (simp_all add: len nth)
qed

lemma markBookedSeats_store_refines:
  assumes "markBookedSeats_store h a users = (h', a')" and "valid_array h a"
  shows "seats_at h' a' = markBookedSeats (seats_at h a) users"
    and "seats_at h' a = seats_at h a"
proof -
  let ?h1 = "h\<lparr> arrays := arrays h @ [arrays h ! a] \<rparr>"
  let ?w = "length (arrays h)"
  from assms have h': "h' = foldl (mark_user_store ?w) ?h1 users" and a': "a' = ?w"
    by (auto simp: markBookedSeats_store_def Let_def)
  have a: "a < ?w" and refs: "list_all (\<lambda>r. r < length (objects h)) (arrays h ! a)"
    using assms(2) by (simp_all add: valid_array_def)
  have v1: "valid_array ?h1 ?w"
    using refs by (simp add: valid_array_def)
  have s1: "seats_at ?h1 ?w = seats_at h a"
    by (simp add: seats_at_def)
  show "seats_at h' a' = markBookedSeats (seats_at h a) users"
    using foldl_store_refines [OF v1, of users] h' a' s1 by simp
  have "arrays h' ! a = arrays h ! a"
    using foldl_store_frame [of ?h1 ?w users] h' a by (simp add: nth_append)
  moreover have "take (length (objects h)) (objects h') = objects h"
    using markBookedSeats_store_frame(2) [OF assms(1)] .
  ultimately show "seats_at h' a = seats_at h a"
    using refs by (intro seats_at_prefix) 
qed

text \<open>
  Claim C10. The reconciliation returns a sequence of the length of its input, in which
  every seat has the id, row and number of the input seat at its position; a seat differs
  from the input seat only when a confirmed record refers to its id, and then only in
  status and occupant. On the store, the result is a new array (its address is fresh), the
  caller's arrays and all seat objects that existed before hold what they held, and for a
  well-formed input array the new array denotes the result of \<open>markBookedSeats\<close> while
  the input array still denotes the input sequence.
\<close>

theorem markBookedSeats_frame:
  "length (markBookedSeats allSeats users) = length allSeats
   \<and> map id_seat (markBookedSeats allSeats users) = map id_seat allSeats
   \<and> map row (markBookedSeats allSeats users) = map row allSeats
   \<and> map number (markBookedSeats allSeats users) = map number allSeats
   \<and> (\<forall>i<length allSeats.
         markBookedSeats allSeats users ! i = allSeats ! i
         \<or> (\<exists>u\<in>set users. seatBooked u \<and> seatId u = Some (id_seat (allSeats ! i))
               \<and> markBookedSeats allSeats users ! i =
                   (allSeats ! i)\<lparr> status := booked, selectedBy := Some (BookedUser.name u) \<rparr>))
   \<and> (case markBookedSeats_store h a users of
         (h', a') \<Rightarrow>
           a' = length (arrays h)
           \<and> take (length (objects h)) (objects h') = objects h
           \<and> take (length (arrays h)) (arrays h') = arrays h
           \<and> (valid_array h a \<longrightarrow>
                 seats_at h' a' = markBookedSeats (seats_at h a) users
                 \<and> seats_at h' a = seats_at h a))"
proof (intro conjI)
  show "length (markBookedSeats allSeats users) = length allSeats"
    by (rule length_markBookedSeats)
  show "map id_seat (markBookedSeats allSeats users) = map id_seat allSeats"
    by (rule ids_markBookedSeats)
  show "map row (markBookedSeats allSeats users) = map row allSeats"
    by (rule rows_markBookedSeats)
  show "map number (markBookedSeats allSeats users) = map number allSeats"
    by (rule numbers_markBookedSeats)
  show "\<forall>i<length allSeats.
         markBookedSeats allSeats users ! i = allSeats ! i
         \<or> (\<exists>u\<in>set users. seatBooked u \<and> seatId u = Some (id_seat (allSeats ! i))
               \<and> markBookedSeats allSeats users ! i =
                   (allSeats ! i)\<lparr> status := booked, selectedBy := Some (BookedUser.name u) \<rparr>)"
  proof (intro allI impI)
    fix i
    assume i: "i < length allSeats"
    show "markBookedSeats allSeats users ! i = allSeats ! i
         \<or> (\<exists>u\<in>set users. seatBooked u \<and> seatId u = Some (id_seat (allSeats ! i))
               \<and> markBookedSeats allSeats users ! i =
                   (allSeats ! i)\<lparr> status := booked, selectedBy := Some (BookedUser.name u) \<rparr>)"
    proof (cases "first_with_id allSeats i")
      case False
      with i show ?thesis by (simp add: markBookedSeats_nth)
    next
      case True
      show ?thesis
      proof (cases "last_confirmed users (id_seat (allSeats ! i))")
        case None
        with True i show ?thesis by (simp add: markBookedSeats_nth)
      next
        case (Some n)
        from last_confirmed_SomeD [OF Some] obtain u where
          "u \<in> set users" "seatBooked u" "seatId u = Some (id_seat (allSeats ! i))"
          "BookedUser.name u = n"
          by blast
        moreover have "markBookedSeats allSeats users ! i =
            (allSeats ! i)\<lparr> status := booked, selectedBy := Some n \<rparr>"
          using True Some i by (simp add: markBookedSeats_nth)
        ultimately show ?thesis by blast
      qed
    qed
  qed
  show "case markBookedSeats_store h a users of
         (h', a') \<Rightarrow>
           a' = length (arrays h)
           \<and> take (length (objects h)) (objects h') = objects h
           \<and> take (length (arrays h)) (arrays h') = arrays h
           \<and> (valid_array h a \<longrightarrow>
                 seats_at h' a' = markBookedSeats (seats_at h a) users
                 \<and> seats_at h' a = seats_at h a)"
  proof (cases "markBookedSeats_store h a users")
    case (Pair h' a')
    show ?thesis
      unfolding Pair prod.case
      using markBookedSeats_store_frame [OF Pair] markBookedSeats_store_refines [OF Pair]
      by blast
  qed
qed

theorem markBookedSeats_frame_witness:
  "valid_array store_two_seats 0
   \<and> seats_at store_two_seats 0 = [seat_A6, seat_A7]
   \<and> markBookedSeats_store store_two_seats 0 [rec_alice, rec_carol] =
       (\<lparr> objects = [seat_A6, seat_A7, seat_A6\<lparr> status := booked, selectedBy := Some ''Alice'' \<rparr>],
          arrays = [[0, 1], [2, 1]] \<rparr>, 1)
   \<and> seats_at \<lparr> objects = [seat_A6, seat_A7, seat_A6\<lparr> status := booked, selectedBy := Some ''Alice'' \<rparr>],
          arrays = [[0, 1], [2, 1]] \<rparr> 1
       = markBookedSeats (seats_at store_two_seats 0) [rec_alice, rec_carol]
   \<and> seats_at \<lparr> objects = [seat_A6, seat_A7, seat_A6\<lparr> status := booked, selectedBy := Some ''Alice'' \<rparr>],
          arrays = [[0, 1], [2, 1]] \<rparr> 0
       = seats_at store_two_seats 0
   \<and> (1::nat) < length [seat_A6, seat_A7]
   \<and> markBookedSeats [seat_A6, seat_A7] [rec_alice, rec_carol] ! 1 = seat_A7"
proof -
  let ?U = "[rec_alice, rec_carol]"
  let ?H = "\<lparr> objects = [seat_A6, seat_A7, seat_A6\<lparr> status := booked, selectedBy := Some ''Alice'' \<rparr>],
          arrays = [[0, 1], [2, 1]] \<rparr>"
  have v: "valid_array store_two_seats 0"
    by (simp add: valid_array_def store_two_seats_def)
  have s: "seats_at store_two_seats 0 = [seat_A6, seat_A7]"
    by (simp add: seats_at_def store_two_seats_def)
  have r: "markBookedSeats_store store_two_seats 0 ?U = (?H, 1)"
    by (simp add: markBookedSeats_store_def mark_user_store_def store_two_seats_def
          rec_alice_def rec_carol_def seat_A6_def seat_A7_def)
  note t = markBookedSeats_frame [of "[seat_A6, seat_A7]" ?U store_two_seats 0]
  note t5 = t [THEN conjunct2, THEN conjunct2, THEN conjunct2, THEN conjunct2, THEN conjunct1]
  note t6 = t [THEN conjunct2, THEN conjunct2, THEN conjunct2, THEN conjunct2, THEN conjunct2]
  have "case (?H, 1::nat) of
         (h', a') \<Rightarrow>
           a' = length (arrays store_two_seats)
           \<and> take (length (objects store_two_seats)) (objects h') = objects store_two_seats
           \<and> take (length (arrays store_two_seats)) (arrays h') = arrays store_two_seats
           \<and> (valid_array store_two_seats 0 \<longrightarrow>
                 seats_at h' a' = markBookedSeats (seats_at store_two_seats 0) ?U
                 \<and> seats_at h' 0 = seats_at store_two_seats 0)"
    using t6 by (simp only: r)
  then have "valid_array store_two_seats 0 \<longrightarrow>
                 seats_at ?H 1 = markBookedSeats (seats_at store_two_seats 0) ?U
                 \<and> seats_at ?H 0 = seats_at store_two_seats 0"
    unfolding prod.case by (elim conjE)
  with v have st: "seats_at ?H 1 = markBookedSeats (seats_at store_two_seats 0) ?U
                 \<and> seats_at ?H 0 = seats_at store_two_seats 0"
    by (rule rev_mp)
  have l: "(1::nat) < length [seat_A6, seat_A7]" by simp
  from t5 [rule_format, OF l] have "markBookedSeats [seat_A6, seat_A7] ?U ! 1 = [seat_A6, seat_A7] ! 1
         \<or> (\<exists>u\<in>set ?U. seatBooked u \<and> seatId u = Some (id_seat ([seat_A6, seat_A7] ! 1))
               \<and> markBookedSeats [seat_A6, seat_A7] ?U ! 1 =
                   ([seat_A6, seat_A7] ! 1)\<lparr> status := booked, selectedBy := Some (BookedUser.name u) \<rparr>)"
    .
  then have 1: "markBookedSeats [seat_A6, seat_A7] ?U ! 1 = seat_A7"
    by (simp add: rec_alice_def rec_carol_def seat_A7_def)
  from v s r st l 1 show ?thesis by (intro conjI) (simp_all only:)
qed

section \<open>Properties of the Data Fetch Controller\<close>

lemma markBookedSeats_Nil: "markBookedSeats allSeats [] = allSeats"
  by (simp add: markBookedSeats_def)

lemma usersData_of_shapes:
  "usersData_of (JArr us) = Inr us"
  "usersData_of (JObj [(''data'', JArr us)]) = Inr us"
  "usersData_of (JObj [(''users'', JArr us)]) = Inr us"
  by (simp_all add: usersData_of_def get_prop_def)

lemma usersData_of_other: "other_shape data \<Longrightarrow> usersData_of data = Inr []"
  by (cases data) (simp_all add: usersData_of_def get_prop_def)

lemma usersData_of_null: "usersData_of JNull = Inl TypeError"
  by (simp add: usersData_of_def get_prop_def)

lemma fetchData_complete_throw:
  "fetchData_try res st = Inl e \<Longrightarrow>
   fetchData_complete res st =
     st\<lparr> error := Some ''Failed to load seat data. Using demo data instead.'',
         seats := generateAllSeats, bookedUsers := [], loading := False, refreshing := False \<rparr>"
  by (simp add: fetchData_complete_def fetchData_catch_def fetchData_finally_def)

lemma fetchData_try_begin:
  "fetchData_try res (fetchData_begin showRefresh st)
   = map_sum id (fetchData_begin showRefresh) (fetchData_try res st)"
  by (simp add: fetchData_try_def fetchData_begin_def Let_def split: sum.splits)

lemma fetchData_indicators:
  "loading (fetchData showRefresh res st) = False \<and> refreshing (fetchData showRefresh res st) = False"
  by (simp add: fetchData_def fetchData_complete_def fetchData_finally_def)

lemma fetchData_throw:
  assumes "fetchData_try res st = Inl e"
  shows "fetchData showRefresh res st =
     st\<lparr> error := Some ''Failed to load seat data. Using demo data instead.'',
         seats := generateAllSeats, bookedUsers := [], loading := False, refreshing := False \<rparr>"
proof -
  have "fetchData_try res (fetchData_begin showRefresh st) = Inl e"
    using assms by (simp add: fetchData_try_begin)
  then show ?thesis
    unfolding fetchData_def
    by (simp add: fetchData_complete_throw) (simp add: fetchData_begin_def)
qed

lemma fetchData_users:
  assumes "ok r" "json_body r = Inr data" "usersData_of data = Inr usersData"
  shows "fetchData showRefresh (Inr r) st =
     st\<lparr> bookedUsers := filter seatBooked usersData,
         seats := markBookedSeats generateAllSeats (filter seatBooked usersData),
         error := None, loading := False, refreshing := False \<rparr>"
  using assms
  by (simp add: fetchData_def fetchData_complete_def fetchData_try_def fetchData_finally_def
        fetchData_begin_def Let_def)

text \<open>
  Claim C4. When the request fails in transport (\<open>fetch\<close> rejects), when the response has
  an error status, or when its body does not parse, \<open>fetchData\<close> sets the error message,
  replaces the seats by the generated seat set, in which every seat is available with no
  occupant, and empties the booking list; it consumes this one response and asks for no
  other. Whatever the response, success or thrown error, \<open>loading\<close> and \<open>refreshing\<close>
  are both false when \<open>fetchData\<close> has run.
\<close>

theorem fetchData_failure:
  "fetchData showRefresh (Inl e) st =
     st\<lparr> error := Some ''Failed to load seat data. Using demo data instead.'',
         seats := generateAllSeats, bookedUsers := [], loading := False, refreshing := False \<rparr>
   \<and> (\<not> ok r \<longrightarrow>
        fetchData showRefresh (Inr r) st =
          st\<lparr> error := Some ''Failed to load seat data. Using demo data instead.'',
              seats := generateAllSeats, bookedUsers := [], loading := False, refreshing := False \<rparr>)
   \<and> (ok r \<and> json_body r = Inl e \<longrightarrow>
        fetchData showRefresh (Inr r) st =
          st\<lparr> error := Some ''Failed to load seat data. Using demo data instead.'',
              seats := generateAllSeats, bookedUsers := [], loading := False, refreshing := False \<rparr>)
   \<and> list_all (\<lambda>s. status s = available \<and> selectedBy s = None) generateAllSeats
   \<and> loading (fetchData showRefresh res st) = False
   \<and> refreshing (fetchData showRefresh res st) = False"
proof (intro conjI impI)
  show "fetchData showRefresh (Inl e) st =
     st\<lparr> error := Some ''Failed to load seat data. Using demo data instead.'',
         seats := generateAllSeats, bookedUsers := [], loading := False, refreshing := False \<rparr>"
    by (rule fetchData_throw [of _ _ e]) (simp add: fetchData_try_def)
next
  assume "\<not> ok r"
  then have "fetchData_try (Inr r) st = Inl (HttpStatusError (http_status r))"
    by (simp add: fetchData_try_def)
  then show "fetchData showRefresh (Inr r) st =
          st\<lparr> error := Some ''Failed to load seat data. Using demo data instead.'',
              seats := generateAllSeats, bookedUsers := [], loading := False, refreshing := False \<rparr>"
    by (rule fetchData_throw)
next
  assume "ok r \<and> json_body r = Inl e"
  then have "fetchData_try (Inr r) st = Inl e"
    by (simp add: fetchData_try_def)
  then show "fetchData showRefresh (Inr r) st =
          st\<lparr> error := Some ''Failed to load seat data. Using demo data instead.'',
              seats := generateAllSeats, bookedUsers := [], loading := False, refreshing := False \<rparr>"
    by (rule fetchData_throw)
next
  show "list_all (\<lambda>s. status s = available \<and> selectedBy s = None) generateAllSeats"
    unfolding generateAllSeats_map by (simp add: list_all_iff new_seat_def del: upt_rec_numeral)
qed (simp_all add: fetchData_indicators)

theorem fetchData_failure_witness:
  "fetchData True (Inl (Rejected ''Failed to fetch'')) state_selecting =
     state_selecting\<lparr> error := Some ''Failed to load seat data. Using demo data instead.'',
         seats := generateAllSeats, bookedUsers := [], loading := False, refreshing := False \<rparr>
   \<and> \<not> ok response_server_error
   \<and> fetchData True (Inr response_server_error) state_selecting =
     state_selecting\<lparr> error := Some ''Failed to load seat data. Using demo data instead.'',
         seats := generateAllSeats, bookedUsers := [], loading := False, refreshing := False \<rparr>
   \<and> ok response_not_json
   \<and> json_body response_not_json = Inl (Rejected ''Unexpected token < in JSON'')
   \<and> fetchData False (Inr response_not_json) state_selecting =
     state_selecting\<lparr> error := Some ''Failed to load seat data. Using demo data instead.'',
         seats := generateAllSeats, bookedUsers := [], loading := False, refreshing := False \<rparr>"
proof -
  note a = fetchData_failure [of True "Rejected ''Failed to fetch''" state_selecting
      response_server_error "Inl (Rejected ''Failed to fetch'')"]
  note b = fetchData_failure [of False "Rejected ''Unexpected token < in JSON''" state_selecting
      response_not_json "Inr response_not_json"]
  have 1: "\<not> ok response_server_error"
    by (simp add: response_server_error_def)
  have 2: "ok response_not_json \<and> json_body response_not_json = Inl (Rejected ''Unexpected token < in JSON'')"
    by (simp add: response_not_json_def)
  from a have a1: "fetchData True (Inl (Rejected ''Failed to fetch'')) state_selecting =
     state_selecting\<lparr> error := Some ''Failed to load seat data. Using demo data instead.'',
         seats := generateAllSeats, bookedUsers := [], loading := False, refreshing := False \<rparr>"
    by (rule conjunct1)
  from a [THEN conjunct2, THEN conjunct1] 1
  have a2: "fetchData True (Inr response_server_error) state_selecting =
     state_selecting\<lparr> error := Some ''Failed to load seat data. Using demo data instead.'',
         seats := generateAllSeats, bookedUsers := [], loading := False, refreshing := False \<rparr>"
    by (rule mp)
  from b [THEN conjunct2, THEN conjunct2, THEN conjunct1] 2
  have b3: "fetchData False (Inr response_not_json) state_selecting =
     state_selecting\<lparr> error := Some ''Failed to load seat data. Using demo data instead.'',
         seats := generateAllSeats, bookedUsers := [], loading := False, refreshing := False \<rparr>"
    by (rule mp)
  from a1 1 a2 2 b3 show ?thesis by simp
qed

text \<open>
  The three accepted shapes with the same list give the same state, and a value for which
  \<open>other_shape\<close> holds gives the state of the empty list.
\<close>

lemma fetchData_three_shapes:
  "fetchData showRefresh (Inr (response_of_json (JArr us))) st =
     st\<lparr> bookedUsers := filter seatBooked us,
         seats := markBookedSeats generateAllSeats (filter seatBooked us),
         error := None, loading := False, refreshing := False \<rparr>"
  "fetchData showRefresh (Inr (response_of_json (JObj [(''data'', JArr us)]))) st =
     fetchData showRefresh (Inr (response_of_json (JArr us))) st"
  "fetchData showRefresh (Inr (response_of_json (JObj [(''users'', JArr us)]))) st =
     fetchData showRefresh (Inr (response_of_json (JArr us))) st"
  by (simp_all add: fetchData_users [where usersData = us] usersData_of_shapes response_of_json_def)

lemma fetchData_other_shape:
  assumes "ok r" "json_body r = Inr data" "other_shape data"
  shows "fetchData showRefresh (Inr r) st =
     st\<lparr> bookedUsers := [], seats := generateAllSeats,
         error := None, loading := False, refreshing := False \<rparr>"
  using fetchData_users [OF assms(1,2) usersData_of_other [OF assms(3)], of showRefresh st]
  by (simp add: markBookedSeats_Nil)

text \<open>
  Claim C3 says that any parsed body that has none of the three shapes is treated as an
  empty list and not as a failure. The body \<open>null\<close> parses, and reading \<open>data.data\<close> of it
  throws: \<open>fetchData\<close> ends in its \<open>catch\<close> block with the error message set, where the
  empty object, by the last branch of the chain, ends with no error.
\<close>

theorem fetchData_null_body:
  "fetchData False (Inr (response_of_json JNull)) initial_state =
     initial_state\<lparr> error := Some ''Failed to load seat data. Using demo data instead.'',
         seats := generateAllSeats, bookedUsers := [], loading := False, refreshing := False \<rparr>
   \<and> error (fetchData False (Inr (response_of_json JNull)) initial_state) \<noteq> None
   \<and> error (fetchData False (Inr (response_of_json (JObj []))) initial_state) = None"
proof -
  have "fetchData_try (Inr (response_of_json JNull)) initial_state = Inl TypeError"
    by (simp add: fetchData_try_def response_of_json_def usersData_of_null)
  then have 1: "fetchData False (Inr (response_of_json JNull)) initial_state =
     initial_state\<lparr> error := Some ''Failed to load seat data. Using demo data instead.'',
         seats := generateAllSeats, bookedUsers := [], loading := False, refreshing := False \<rparr>"
    by (rule fetchData_throw)
  have 2: "error (fetchData False (Inr (response_of_json (JObj []))) initial_state) = None"
    by (simp add: fetchData_other_shape [where data = "JObj []"] response_of_json_def)
  from 1 2 show ?thesis by simp
qed

text \<open>
  Claim C7 as it is written says that the error state after a malformed shape is the one
  after a transport failure. After the empty object the error is cleared; after a rejected
  request it holds the message of the banner.
\<close>

theorem fetchData_malformed_counterexample:
  "other_shape (JObj [] :: BookedUser jsval)
   \<and> error (fetchData False (Inr (response_of_json (JObj []))) initial_state) = None
   \<and> error (fetchData False (Inl (Rejected ''Failed to fetch'')) initial_state)
       = Some ''Failed to load seat data. Using demo data instead.''
   \<and> error (fetchData False (Inr (response_of_json (JObj []))) initial_state)
       \<noteq> error (fetchData False (Inl (Rejected ''Failed to fetch'')) initial_state)"
proof -
  have 1: "error (fetchData False (Inr (response_of_json (JObj []))) initial_state) = None"
    by (simp add: fetchData_other_shape [where data = "JObj []"] response_of_json_def)
  have "fetchData_try (Inl (Rejected ''Failed to fetch'')) initial_state
        = (Inl (Rejected ''Failed to fetch'') :: exn + app_state)"
    by (simp add: fetchData_try_def)
  then have 2: "error (fetchData False (Inl (Rejected ''Failed to fetch'')) initial_state)
       = Some ''Failed to load seat data. Using demo data instead.''"
    by (simp add: fetchData_throw)
  from 1 2 show ?thesis by simp
qed

text \<open>
  Claim C7, as amended. A parsed body that is a boolean, a number, a string, or an object
  whose \<open>data\<close> and \<open>users\<close> are not arrays is treated as an empty list: the seats are the
  generated seat set and the booking list is empty, as after a transport or parse failure,
  but the error state is cleared (no banner), while the failure sets the error message.
\<close>

theorem fetchData_malformed_shape:
  "ok r \<and> json_body r = Inr data \<and> other_shape data \<longrightarrow>
     fetchData showRefresh (Inr r) st =
       st\<lparr> bookedUsers := [], seats := generateAllSeats,
           error := None, loading := False, refreshing := False \<rparr>
     \<and> seats (fetchData showRefresh (Inr r) st) = seats (fetchData showRefresh (Inl e) st)
     \<and> bookedUsers (fetchData showRefresh (Inr r) st) = bookedUsers (fetchData showRefresh (Inl e) st)
     \<and> error (fetchData showRefresh (Inr r) st) = None
     \<and> error (fetchData showRefresh (Inl e) st)
         = Some ''Failed to load seat data. Using demo data instead.''"
proof (intro impI)
  assume a: "ok r \<and> json_body r = Inr data \<and> other_shape data"
  then have 1: "fetchData showRefresh (Inr r) st =
       st\<lparr> bookedUsers := [], seats := generateAllSeats,
           error := None, loading := False, refreshing := False \<rparr>"
    by (simp add: fetchData_other_shape)
  have "fetchData_try (Inl e) st = (Inl e :: exn + app_state)"
    by (simp add: fetchData_try_def)
  then have 2: "fetchData showRefresh (Inl e) st =
     st\<lparr> error := Some ''Failed to load seat data. Using demo data instead.'',
         seats := generateAllSeats, bookedUsers := [], loading := False, refreshing := False \<rparr>"
    by (rule fetchData_throw)
  show "fetchData showRefresh (Inr r) st =
       st\<lparr> bookedUsers := [], seats := generateAllSeats,
           error := None, loading := False, refreshing := False \<rparr>
     \<and> seats (fetchData showRefresh (Inr r) st) = seats (fetchData showRefresh (Inl e) st)
     \<and> bookedUsers (fetchData showRefresh (Inr r) st) = bookedUsers (fetchData showRefresh (Inl e) st)
     \<and> error (fetchData showRefresh (Inr r) st) = None
     \<and> error (fetchData showRefresh (Inl e) st)
         = Some ''Failed to load seat data. Using demo data instead.''"
    unfolding 1 2 by simp
qed

theorem fetchData_malformed_shape_witness:
  "ok (response_of_json (JObj [(''bookings'', JArr [rec_alice])]))
   \<and> json_body (response_of_json (JObj [(''bookings'', JArr [rec_alice])]))
       = Inr (JObj [(''bookings'', JArr [rec_alice])])
   \<and> other_shape (JObj [(''bookings'', JArr [rec_alice])])
   \<and> fetchData True (Inr (response_of_json (JObj [(''bookings'', JArr [rec_alice])]))) state_selecting =
       state_selecting\<lparr> bookedUsers := [], seats := generateAllSeats,
           error := None, loading := False, refreshing := False \<rparr>
   \<and> error (fetchData True (Inl (Rejected ''Failed to fetch'')) state_selecting)
         = Some ''Failed to load seat data. Using demo data instead.''"
proof -
  let ?d = "JObj [(''bookings'', JArr [rec_alice])]"
  have h: "ok (response_of_json ?d) \<and> json_body (response_of_json ?d) = Inr ?d \<and> other_shape ?d"
    by (simp add: response_of_json_def)
  from fetchData_malformed_shape [of "response_of_json ?d" ?d True state_selecting
      "Rejected ''Failed to fetch''"] h
  have "fetchData True (Inr (response_of_json ?d)) state_selecting =
       state_selecting\<lparr> bookedUsers := [], seats := generateAllSeats,
           error := None, loading := False, refreshing := False \<rparr>
     \<and> seats (fetchData True (Inr (response_of_json ?d)) state_selecting)
         = seats (fetchData True (Inl (Rejected ''Failed to fetch'')) state_selecting)
     \<and> bookedUsers (fetchData True (Inr (response_of_json ?d)) state_selecting)
         = bookedUsers (fetchData True (Inl (Rejected ''Failed to fetch'')) state_selecting)
     \<and> error (fetchData True (Inr (response_of_json ?d)) state_selecting) = None
     \<and> error (fetchData True (Inl (Rejected ''Failed to fetch'')) state_selecting)
         = Some ''Failed to load seat data. Using demo data instead.''"
    by (rule mp)
  with h show ?thesis by simp
qed

section \<open>Properties of the Booking Submission Controller\<close>

lemma confirm_try_refreshing:
  "refreshing (fst (confirm_try form sel seats0 clk cres st)) = refreshing st"
  by (simp add: confirm_try_def Let_def split: sum.splits)

text \<open>
  Claim C2 as it is written says that the busy indicator of the submission is a state field
  distinct from those of the fetch. Starting a submission and starting a fetch that is not a
  manual refresh are the same update, \<open>loading := True\<close>; and a manual refresh that runs
  while the submission waits for its response leaves \<open>loading\<close> false.
\<close>

theorem shared_loading_flag_counterexample:
  "handleConfirmBooking_begin state_selecting = fetchData_begin False state_selecting
   \<and> loading (handleConfirmBooking_begin state_selecting) = True
   \<and> loading (fetchData True (Inr (response_of_json (JArr [])))
                (handleConfirmBooking_begin state_selecting)) = False"
  by (simp add: handleConfirmBooking_begin_def fetchData_begin_def fetchData_indicators)

text \<open>
  Claim C2, as amended. Neither cycle takes a lock, so a fetch can run between the two
  parts of a submission, and the two cycles share the field \<open>loading\<close>: the submission
  sets it and clears it, a fetch that is not a manual refresh sets it, and every fetch
  clears it on completion, also while a submission is pending. The field \<open>refreshing\<close> is
  the only indicator of the fetch alone: a manual refresh sets it, every fetch clears it,
  and the submission leaves it as it is.
\<close>

theorem busy_flags:
  "handleConfirmBooking_begin st = st\<lparr> loading := True \<rparr>
   \<and> fetchData_begin False st = st\<lparr> loading := True \<rparr>
   \<and> fetchData_begin True st = st\<lparr> refreshing := True \<rparr>
   \<and> loading (fetchData_complete res st) = False
   \<and> refreshing (fetchData_complete res st) = False
   \<and> refreshing (handleConfirmBooking_begin st) = refreshing st
   \<and> loading (snd (handleConfirmBooking_complete form sel seats0 clk cres st)) = False
   \<and> refreshing (snd (handleConfirmBooking_complete form sel seats0 clk cres st)) = refreshing st
   \<and> loading (fetchData showRefresh res (handleConfirmBooking_begin st)) = False"
proof (intro conjI)
  show "loading (snd (handleConfirmBooking_complete form sel seats0 clk cres st)) = False"
    by (simp add: handleConfirmBooking_complete_def split: prod.splits)
  show "refreshing (snd (handleConfirmBooking_complete form sel seats0 clk cres st)) = refreshing st"
    using confirm_try_refreshing [of form sel seats0 clk cres st]
    by (auto simp: handleConfirmBooking_complete_def split: prod.splits)
qed (simp_all add: handleConfirmBooking_begin_def fetchData_begin_def fetchData_indicators
       fetchData_complete_def fetchData_finally_def)

text \<open>
  Claim C5. When the name, email and phone of the form are not empty, a seat is selected,
  and the service answers with a success status and a body that parses to a value other
  than \<open>null\<close>: every seat with the id of the selected seat is booked under the submitted
  name and the other seats are as before; a record with the form's fields, the seat id,
  \<open>seatBooked = true\<close>, the current time as \<open>createdAt\<close> and, as identifier, the \<open>_id\<close> of
  the body when it has a non-empty one and the current time in milliseconds otherwise,
  is appended to the booking list; the modal is closed, the form is reset, the selection is
  cleared, the success message names the booked seat, and a fetch is scheduled in 500 ms.
\<close>

theorem handleConfirmBooking_success:
  assumes "FormData.name (formData st) \<noteq> []" and "FormData.email (formData st) \<noteq> []"
    and "FormData.phone (formData st) \<noteq> []"
    and "selectedSeat st = Some sel"
    and "ok r" and "json_body r = Inr (Data i)"
  shows "handleConfirmBooking clk (Inr r) st =
     ([Alert_booked (FormData.name (formData st)) (row sel) (number sel),
       SetTimeout_fetchData 500],
      st\<lparr> seats :=
            map (\<lambda>s. if id_seat s = id_seat sel
                      then s\<lparr> status := booked, selectedBy := Some (FormData.name (formData st)) \<rparr>
                      else s) (seats st),
          bookedUsers := bookedUsers st @
            [\<lparr> id_rec = (case i of None \<Rightarrow> now_string clk
                            | Some j \<Rightarrow> if j \<noteq> [] then j else now_string clk),
               name = FormData.name (formData st),
               email = FormData.email (formData st),
               phone = FormData.phone (formData st),
               payment = FormData.payment (formData st),
               seatBooked = True,
               seatId = Some (id_seat sel),
               createdAt = now_iso clk \<rparr>],
          showModal := False,
          formData := empty_form,
          selectedSeat := None,
          loading := False \<rparr>)
   \<and> list_all (\<lambda>s. id_seat s = id_seat sel \<longrightarrow>
                  status s = booked \<and> selectedBy s = Some (FormData.name (formData st)))
        (seats (snd (handleConfirmBooking clk (Inr r) st)))
   \<and> map id_seat (seats (snd (handleConfirmBooking clk (Inr r) st))) = map id_seat (seats st)"
proof -
  have eq: "handleConfirmBooking clk (Inr r) st =
     ([Alert_booked (FormData.name (formData st)) (row sel) (number sel),
       SetTimeout_fetchData 500],
      st\<lparr> seats :=
            map (\<lambda>s. if id_seat s = id_seat sel
                      then s\<lparr> status := booked, selectedBy := Some (FormData.name (formData st)) \<rparr>
                      else s) (seats st),
          bookedUsers := bookedUsers st @
            [\<lparr> id_rec = (case i of None \<Rightarrow> now_string clk
                            | Some j \<Rightarrow> if j \<noteq> [] then j else now_string clk),
               name = FormData.name (formData st),
               email = FormData.email (formData st),
               phone = FormData.phone (formData st),
               payment = FormData.payment (formData st),
               seatBooked = True,
               seatId = Some (id_seat sel),
               createdAt = now_iso clk \<rparr>],
          showModal := False,
          formData := empty_form,
          selectedSeat := None,
          loading := False \<rparr>)"
    using assms
    by (cases i)
       (simp_all add: handleConfirmBooking_def handleConfirmBooking_complete_def
          handleConfirmBooking_begin_def confirm_try_def id_or_now_def Let_def)
  show ?thesis
    unfolding eq by (auto simp: list_all_iff comp_def)
qed

theorem handleConfirmBooking_success_witness:
  "FormData.name (formData state_selecting) \<noteq> []
   \<and> FormData.email (formData state_selecting) \<noteq> []
   \<and> FormData.phone (formData state_selecting) \<noteq> []
   \<and> selectedSeat state_selecting = Some seat_A6
   \<and> ok response_confirmed
   \<and> json_body response_confirmed = Inr (Data (Some ''b1''))
   \<and> handleConfirmBooking clock_noon (Inr response_confirmed) state_selecting =
       ([Alert_booked ''Alice'' ''A'' 6, SetTimeout_fetchData 500],
        \<lparr> seats = [seat_A6\<lparr> status := booked, selectedBy := Some ''Alice'' \<rparr>, seat_A7],
          selectedSeat = None, showModal = False, loading = False, refreshing = False,
          error = None,
          bookedUsers =
            [\<lparr> id_rec = ''b1'', name = ''Alice'', email = ''a@x.com'', phone = ''555'',
               payment = ''card'', seatBooked = True, seatId = Some 5,
               createdAt = ''2024-01-01T10:00:00.000Z'' \<rparr>],
          formData = empty_form \<rparr>)"
proof -
  have h1: "FormData.name (formData state_selecting) \<noteq> []"
    and h2: "FormData.email (formData state_selecting) \<noteq> []"
    and h3: "FormData.phone (formData state_selecting) \<noteq> []"
    and h4: "selectedSeat state_selecting = Some seat_A6"
    by (simp_all add: state_selecting_def form_alice_def)
  have h5: "ok response_confirmed"
    and h6: "json_body response_confirmed = Inr (Data (Some ''b1''))"
    by (simp_all add: response_confirmed_def)
  note t = handleConfirmBooking_success [OF h1 h2 h3 h4 h5 h6, of clock_noon, THEN conjunct1]
  have "handleConfirmBooking clock_noon (Inr response_confirmed) state_selecting =
       ([Alert_booked ''Alice'' ''A'' 6, SetTimeout_fetchData 500],
        \<lparr> seats = [seat_A6\<lparr> status := booked, selectedBy := Some ''Alice'' \<rparr>, seat_A7],
          selectedSeat = None, showModal = False, loading = False, refreshing = False,
          error = None,
          bookedUsers =
            [\<lparr> id_rec = ''b1'', name = ''Alice'', email = ''a@x.com'', phone = ''555'',
               payment = ''card'', seatBooked = True, seatId = Some 5,
               createdAt = ''2024-01-01T10:00:00.000Z'' \<rparr>],
          formData = empty_form \<rparr>)"
    unfolding t
    by (simp add: state_selecting_def form_alice_def seat_A6_def seat_A7_def clock_noon_def)
  with h1 h2 h3 h4 h5 h6 show ?thesis by simp
qed

text \<open>
  Claim C6. When the form is filled in, a seat is selected and the service answers with an
  error status, the handler shows the failure message (the text of the response, or the
  error of reading it) and changes nothing else: seats, modal, form, selection, booking
  list, error and \<open>refreshing\<close> are as before, and \<open>loading\<close>, which the handler raised, is
  false again; a state with \<open>loading\<close> false is returned as it was.
\<close>

theorem handleConfirmBooking_rejected:
  assumes "FormData.name (formData st) \<noteq> []" and "FormData.email (formData st) \<noteq> []"
    and "FormData.phone (formData st) \<noteq> []"
    and "selectedSeat st = Some sel"
    and "\<not> ok r"
  shows "handleConfirmBooking clk (Inr r) st =
     ([Alert_failed (case text_body r of Inl e \<Rightarrow> e | Inr errorText \<Rightarrow> ConfirmBookingError errorText)],
      st\<lparr> loading := False \<rparr>)
   \<and> seats (snd (handleConfirmBooking clk (Inr r) st)) = seats st
   \<and> showModal (snd (handleConfirmBooking clk (Inr r) st)) = showModal st
   \<and> formData (snd (handleConfirmBooking clk (Inr r) st)) = formData st
   \<and> selectedSeat (snd (handleConfirmBooking clk (Inr r) st)) = selectedSeat st
   \<and> bookedUsers (snd (handleConfirmBooking clk (Inr r) st)) = bookedUsers st
   \<and> error (snd (handleConfirmBooking clk (Inr r) st)) = error st
   \<and> refreshing (snd (handleConfirmBooking clk (Inr r) st)) = refreshing st
   \<and> (\<not> loading st \<longrightarrow> snd (handleConfirmBooking clk (Inr r) st) = st)"
proof -
  have eq: "handleConfirmBooking clk (Inr r) st =
     ([Alert_failed (case text_body r of Inl e \<Rightarrow> e | Inr errorText \<Rightarrow> ConfirmBookingError errorText)],
      st\<lparr> loading := False \<rparr>)"
    using assms
    by (simp add: handleConfirmBooking_def handleConfirmBooking_complete_def
          handleConfirmBooking_begin_def confirm_try_def split: sum.splits)
  show ?thesis
    unfolding eq by simp
qed

theorem handleConfirmBooking_rejected_witness:
  "FormData.name (formData state_selecting) \<noteq> []
   \<and> FormData.email (formData state_selecting) \<noteq> []
   \<and> FormData.phone (formData state_selecting) \<noteq> []
   \<and> selectedSeat state_selecting = Some seat_A6
   \<and> \<not> ok response_conflict
   \<and> \<not> loading state_selecting
   \<and> handleConfirmBooking clock_noon (Inr response_conflict) state_selecting =
       ([Alert_failed (ConfirmBookingError ''Seat already booked'')], state_selecting)
   \<and> status (seats (snd (handleConfirmBooking clock_noon (Inr response_conflict) state_selecting)) ! 0)
       = available
   \<and> showModal (snd (handleConfirmBooking clock_noon (Inr response_conflict) state_selecting))"
proof -
  have h1: "FormData.name (formData state_selecting) \<noteq> []"
    and h2: "FormData.email (formData state_selecting) \<noteq> []"
    and h3: "FormData.phone (formData state_selecting) \<noteq> []"
    and h4: "selectedSeat state_selecting = Some seat_A6"
    and h6: "\<not> loading state_selecting"
    by (simp_all add: state_selecting_def form_alice_def)
  have h5: "\<not> ok response_conflict"
    by (simp add: response_conflict_def)
  note t = handleConfirmBooking_rejected [OF h1 h2 h3 h4 h5, of clock_noon]
  have e: "handleConfirmBooking clock_noon (Inr response_conflict) state_selecting =
       ([Alert_failed (ConfirmBookingError ''Seat already booked'')], state_selecting)"
    unfolding t [THEN conjunct1]
    by (simp add: response_conflict_def state_selecting_def)
  have s: "status (seats state_selecting ! 0) = available" "showModal state_selecting"
    by (simp_all add: state_selecting_def seat_A6_def)
  from h1 h2 h3 h4 h5 h6 e s show ?thesis by simp
qed

end
